theory Spec2Isabelle
  imports Main
begin

section \<open>Strings\<close>

text \<open>
  A string is a list of 8-bit code units. The character classes are those of the
  JavaScript regular expressions and of \<^verbatim>\<open>trim\<close> in that range: white space is
  TAB, LF, VT, FF, CR, SPACE and NBSP; \<^verbatim>\<open>\w\<close> is \<^verbatim>\<open>[A-Za-z0-9_]\<close>; the dot matches
  everything but the line terminators LF and CR. Case conversion covers the ASCII
  letters and leaves every other code unit as it is.
\<close>

abbreviation LF :: char where "LF \<equiv> CHR 0x0A"
abbreviation CR :: char where "CR \<equiv> CHR 0x0D"

definition isWhiteSpace :: "char \<Rightarrow> bool" where
  "isWhiteSpace c =
     (c = CHR 0x09 \<or> c = LF \<or> c = CHR 0x0B \<or> c = CHR 0x0C \<or> c = CR \<or> c = CHR 0x20 \<or> c = CHR 0xA0)"

definition isLineTerminator :: "char \<Rightarrow> bool" where
  "isLineTerminator c = (c = LF \<or> c = CR)"

definition isWordChar :: "char \<Rightarrow> bool" where
  "isWordChar c =
     (let n = (of_char c :: nat)
      in (48 \<le> n \<and> n \<le> 57) \<or> (65 \<le> n \<and> n \<le> 90) \<or> n = 95 \<or> (97 \<le> n \<and> n \<le> 122))"

text \<open>The class \<^verbatim>\<open>[\w.-]\<close> of the key of an assignment.\<close>

definition isKeyChar :: "char \<Rightarrow> bool" where
  "isKeyChar c = (isWordChar c \<or> c = CHR ''.'' \<or> c = CHR ''-'')"

definition trimStart :: "string \<Rightarrow> string" where
  "trimStart s = dropWhile isWhiteSpace s"

definition trimEnd :: "string \<Rightarrow> string" where
  "trimEnd s = rev (dropWhile isWhiteSpace (rev s))"

definition trim :: "string \<Rightarrow> string" where
  "trim s = trimEnd (trimStart s)"

definition toLowerChar :: "char \<Rightarrow> char" where
  "toLowerChar c =
     (let n = (of_char c :: nat) in if 65 \<le> n \<and> n \<le> 90 then char_of (n + 32) else c)"

definition toUpperChar :: "char \<Rightarrow> char" where
  "toUpperChar c =
     (let n = (of_char c :: nat) in if 97 \<le> n \<and> n \<le> 122 then char_of (n - 32) else c)"

definition toLowerCase :: "string \<Rightarrow> string" where
  "toLowerCase s = map toLowerChar s"

definition toUpperCase :: "string \<Rightarrow> string" where
  "toUpperCase s = map toUpperChar s"


text \<open>
  \<^verbatim>\<open>content.split(/\r?\n/)\<close>: a boundary is LF, or CR directly followed by LF; a CR
  that is not followed by LF stays in its line.
\<close>

fun splitLines :: "string \<Rightarrow> string list" where
  "splitLines [] = [[]]"
| "splitLines [c] = (if c = LF then [[], []] else [[c]])"
| "splitLines (c # d # cs) =
     (if c = LF then [] # splitLines (d # cs)
      else if c = CR \<and> d = LF then [] # splitLines cs
      else (case splitLines (d # cs) of l # ls \<Rightarrow> (c # l) # ls | [] \<Rightarrow> [[c]]))"

text \<open>\<^verbatim>\<open>parts.join(sep)\<close>.\<close>

fun joinWith :: "string \<Rightarrow> string list \<Rightarrow> string" where
  "joinWith sep [] = []"
| "joinWith sep [x] = x"
| "joinWith sep (x # y # ys) = x @ sep @ joinWith sep (y # ys)"

section \<open>Data model\<close>

text \<open>
  \<^verbatim>\<open>EnvLine.ts\<close>: a line of an environment file is a tagged union with three shapes.
  The blank shape carries the constant text \<^verbatim>\<open>''\<close>, so it has no payload here.
\<close>

datatype EnvLine =
    Comment (line_text: string)
  | Blank
  | KeyValue (line_key: string) (line_value: string) (line_raw: string)

fun isKeyValue :: "EnvLine \<Rightarrow> bool" where
  "isKeyValue (KeyValue k v r) = True"
| "isKeyValue _ = False"

text \<open>A key/value line of the key \<open>k\<close>.\<close>

fun hasKey :: "string \<Rightarrow> EnvLine \<Rightarrow> bool" where
  "hasKey k (KeyValue k' v r) = (k' = k)"
| "hasKey k _ = False"

text \<open>The keys of the key/value lines of a line list, in order.\<close>

fun keysOf :: "EnvLine list \<Rightarrow> string list" where
  "keysOf [] = []"
| "keysOf (KeyValue k v r # ls) = k # keysOf ls"
| "keysOf (_ # ls) = keysOf ls"

subsection \<open>The insertion-ordered \<^verbatim>\<open>Map\<close> of JavaScript\<close>

text \<open>
  A \<^verbatim>\<open>Map\<close> iterates in insertion order; \<^verbatim>\<open>set\<close> on a key that is present
  replaces the value and keeps the position, \<^verbatim>\<open>delete\<close> removes the entry. It is an
  association list with distinct keys.
\<close>

type_synonym ('k, 'v) jsmap = "('k \<times> 'v) list"

fun mapSet :: "('k, 'v) jsmap \<Rightarrow> 'k \<Rightarrow> 'v \<Rightarrow> ('k, 'v) jsmap" where
  "mapSet [] k v = [(k, v)]"
| "mapSet ((k', v') # m) k v =
     (if k' = k then (k, v) # m else (k', v') # mapSet m k v)"

definition mapGet :: "('k, 'v) jsmap \<Rightarrow> 'k \<Rightarrow> 'v option" where
  "mapGet m k = map_of m k"

definition mapHas :: "('k, 'v) jsmap \<Rightarrow> 'k \<Rightarrow> bool" where
  "mapHas m k = (mapGet m k \<noteq> None)"

definition mapDelete :: "('k, 'v) jsmap \<Rightarrow> 'k \<Rightarrow> ('k, 'v) jsmap" where
  "mapDelete m k = filter (\<lambda>e. fst e \<noteq> k) m"

definition mapValues :: "('k, 'v) jsmap \<Rightarrow> 'v list" where
  "mapValues m = map snd m"

section \<open>The merge engine (\<^verbatim>\<open>mergeEnvLocal.ts\<close>)\<close>

text \<open>
  The first loop of \<^verbatim>\<open>mergeEnvLocal\<close>: every key/value line of the new lines is
  stored under its key.
\<close>

fun collectKeyValues :: "(string, EnvLine) jsmap \<Rightarrow> EnvLine list \<Rightarrow> (string, EnvLine) jsmap" where
  "collectKeyValues m [] = m"
| "collectKeyValues m (KeyValue k v r # ls) = collectKeyValues (mapSet m k (KeyValue k v r)) ls"
| "collectKeyValues m (_ # ls) = collectKeyValues m ls"

text \<open>
  The second loop walks the existing lines with the state \<^verbatim>\<open>(merged, newMap)\<close>.
\<close>

fun mergeLoop ::
  "bool \<Rightarrow> EnvLine list \<Rightarrow> EnvLine list \<Rightarrow> (string, EnvLine) jsmap
     \<Rightarrow> EnvLine list \<times> (string, EnvLine) jsmap" where
  "mergeLoop ov [] merged newMap = (merged, newMap)"
| "mergeLoop ov (KeyValue k v r # ls) merged newMap =
     (if \<not> ov then
        mergeLoop ov ls (merged @ [KeyValue k v r]) (mapDelete newMap k)
      else
        (case mapGet newMap k of
           Some nl \<Rightarrow> mergeLoop ov ls (merged @ [nl]) (mapDelete newMap k)
         | None \<Rightarrow> mergeLoop ov ls (merged @ [KeyValue k v r]) newMap))"
| "mergeLoop ov (Comment t # ls) merged newMap =
     mergeLoop ov ls (merged @ [Comment t]) newMap"
| "mergeLoop ov (Blank # ls) merged newMap =
     mergeLoop ov ls (merged @ [Blank]) newMap"

text \<open>After the walk, the entries left in the lookup are appended in the lookup's order.\<close>

definition mergeEnvLocal :: "EnvLine list \<Rightarrow> EnvLine list \<Rightarrow> bool \<Rightarrow> EnvLine list" where
  "mergeEnvLocal existingLines newLines ov =
     (case mergeLoop ov existingLines [] (collectKeyValues [] newLines) of
        (merged, newMap) \<Rightarrow> merged @ mapValues newMap)"

section \<open>The line parser (\<^verbatim>\<open>parseEnvLine.ts\<close>, \<^verbatim>\<open>parseEnvFile.ts\<close>)\<close>

text \<open>
  \<^verbatim>\<open>line.match(/^([\w.-]+)\s*=\s*(.*)$/)\<close>. Key characters, white space and \<^verbatim>\<open>=\<close> are
  pairwise disjoint, so the only way to match is: the longest run of key characters
  (not empty), the longest run of white space, \<^verbatim>\<open>=\<close>, the longest run of white space,
  and a rest without line terminator (what white space the second \<^verbatim>\<open>\s*\<close> could give
  back by backtracking does not remove a line terminator further right). The result is
  the two groups.
\<close>

definition matchEnvLine :: "string \<Rightarrow> (string \<times> string) option" where
  "matchEnvLine line =
     (let key = takeWhile isKeyChar line;
          rest = dropWhile isWhiteSpace (dropWhile isKeyChar line)
      in if key = [] then None
         else (case rest of
                 [] \<Rightarrow> None
               | c # rest' \<Rightarrow>
                   if c \<noteq> CHR ''='' then None
                   else (let v = dropWhile isWhiteSpace rest'
                         in if list_ex isLineTerminator v then None else Some (key, v))))"

text \<open>\<^verbatim>\<open>s.startsWith('#')\<close>.\<close>

fun startsWithHash :: "string \<Rightarrow> bool" where
  "startsWithHash [] = False"
| "startsWithHash (c # cs) = (c = CHR ''#'')"

definition parseEnvLine :: "string \<Rightarrow> EnvLine" where
  "parseEnvLine line =
     (if trim line = [] then Blank
      else if startsWithHash (trimStart line) then Comment line
      else (case matchEnvLine line of
              None \<Rightarrow> Comment line
            | Some (k, v) \<Rightarrow> KeyValue k v line))"

text \<open>\<^verbatim>\<open>parseEnvFile\<close>, on the content read from the file.\<close>

definition parseEnvFile :: "string \<Rightarrow> EnvLine list" where
  "parseEnvFile content = map parseEnvLine (splitLines content)"

section \<open>Placeholders (\<^verbatim>\<open>normalizePlaceholderName.ts\<close>, \<^verbatim>\<open>generateEnvLocalLines.ts\<close>)\<close>

text \<open>
  A \<^verbatim>\<open>PlaceholdersMap\<close> is an object used as a dictionary from names to strings. It is
  modelled as a dictionary: by its own entries. What every object inherits from its
  prototype (a member named \<^verbatim>\<open>constructor\<close>) is outside the model.
\<close>

type_synonym PlaceholdersMap = "string \<rightharpoonup> string"

definition normalizePlaceholderName :: "string \<Rightarrow> string" where
  "normalizePlaceholderName rawName =
     map (\<lambda>c. if c = CHR ''_'' then CHR ''-'' else c) (toLowerCase (trim rawName))"

text \<open>
  \<^verbatim>\<open>rawValue.match(/^<(.*)>$/)\<close>: the value starts with \<^verbatim>\<open><\<close>, ends with a later
  \<^verbatim>\<open>>\<close>, and what lies between holds no line terminator; the group is what lies between.
\<close>

fun placeholderMatch :: "string \<Rightarrow> string option" where
  "placeholderMatch [] = None"
| "placeholderMatch (c # cs) =
     (if c = CHR ''<'' \<and> cs \<noteq> [] \<and> last cs = CHR ''>'' \<and> \<not> list_ex isLineTerminator (butlast cs)
      then Some (butlast cs) else None)"

text \<open>The function mapped over the lines by \<^verbatim>\<open>generateEnvLocalLines\<close>.\<close>

fun resolveLine :: "PlaceholdersMap \<Rightarrow> EnvLine \<Rightarrow> EnvLine" where
  "resolveLine placeholderMap (KeyValue k v r) =
     (case placeholderMatch (trim v) of
        None \<Rightarrow> KeyValue k v r
      | Some name \<Rightarrow>
          (case placeholderMap (normalizePlaceholderName name) of
             Some replacement \<Rightarrow> KeyValue k replacement (k @ ''='' @ replacement)
           | None \<Rightarrow> KeyValue k v r))"
| "resolveLine placeholderMap ln = ln"

definition generateEnvLocalLines :: "EnvLine list \<Rightarrow> PlaceholdersMap \<Rightarrow> EnvLine list" where
  "generateEnvLocalLines envExampleLines placeholderMap =
     map (resolveLine placeholderMap) envExampleLines"

section \<open>The writer (\<^verbatim>\<open>writeEnvFile.ts\<close>)\<close>

text \<open>The output loop: comment and blank lines give their text, a key/value line \<^verbatim>\<open>key=value\<close>.\<close>

fun renderLine :: "EnvLine \<Rightarrow> string" where
  "renderLine (Comment t) = t"
| "renderLine Blank = []"
| "renderLine (KeyValue k v r) = k @ ''='' @ v"

definition renderLines :: "EnvLine list \<Rightarrow> string" where
  "renderLines ls = joinWith [LF] (map renderLine ls)"

text \<open>The loop over \<^verbatim>\<open>Object.entries(extraVars)\<close>.\<close>

fun applyExtraVars ::
  "bool \<Rightarrow> (string, EnvLine) jsmap \<Rightarrow> (string \<times> string) list \<Rightarrow> (string, EnvLine) jsmap" where
  "applyExtraVars ov linesMap [] = linesMap"
| "applyExtraVars ov linesMap ((k, v) # es) =
     (if mapHas linesMap k then
        (if ov then applyExtraVars ov (mapSet linesMap k (KeyValue k v (k @ ''='' @ v))) es
         else applyExtraVars ov linesMap es)
      else applyExtraVars ov (mapSet linesMap k (KeyValue k v (k @ ''='' @ v))) es)"

text \<open>The loop that turns the lookup back into lines, with the state \<^verbatim>\<open>(finalLines, linesMap)\<close>.\<close>

fun rebuildLines ::
  "EnvLine list \<Rightarrow> EnvLine list \<Rightarrow> (string, EnvLine) jsmap
     \<Rightarrow> EnvLine list \<times> (string, EnvLine) jsmap" where
  "rebuildLines [] finalLines linesMap = (finalLines, linesMap)"
| "rebuildLines (KeyValue k v r # ls) finalLines linesMap =
     (case mapGet linesMap k of
        Some nl \<Rightarrow> rebuildLines ls (finalLines @ [nl]) (mapDelete linesMap k)
      | None \<Rightarrow> rebuildLines ls finalLines linesMap)"
| "rebuildLines (ln # ls) finalLines linesMap = rebuildLines ls (finalLines @ [ln]) linesMap"

text \<open>
  The loop over what is left in the lookup. \<^verbatim>\<open>finalLines.includes(ln)\<close> compares
  object identities; an entry that is left has a key that no line of
  \<^verbatim>\<open>finalLines\<close> has, so comparing the values decides the same.
\<close>

fun appendLeftover :: "EnvLine list \<Rightarrow> EnvLine list \<Rightarrow> EnvLine list" where
  "appendLeftover finalLines [] = finalLines"
| "appendLeftover finalLines (ln # ls) =
     (if ln \<notin> set finalLines then appendLeftover (finalLines @ [ln]) ls
      else appendLeftover finalLines ls)"

text \<open>\<^verbatim>\<open>writeEnvFile\<close> returns here the text that it writes to the file.\<close>

definition writeEnvFile :: "EnvLine list \<Rightarrow> (string \<times> string) list \<Rightarrow> bool \<Rightarrow> string" where
  "writeEnvFile ls extraVars ov =
     (case rebuildLines ls [] (applyExtraVars ov (collectKeyValues [] ls) extraVars) of
        (finalLines, linesMap) \<Rightarrow> renderLines (appendLeftover finalLines (mapValues linesMap)))"

section \<open>Value sources (\<^verbatim>\<open>fetchFromSupabaseJSON.ts\<close>, \<^verbatim>\<open>generateEnvAction.ts\<close>)\<close>

text \<open>
  What \<^verbatim>\<open>spawnSync\<close> and \<^verbatim>\<open>JSON.parse\<close> hand to the function: the launch failed, the
  exit status is not zero, the output does not parse, or it parses to an object, given
  by its top-level fields (each name once), each a string or something else.
\<close>

datatype jsonValue = JString string | JOther

datatype statusResult =
    LaunchFailed
  | NonZeroExit
  | Unparsable
  | ParsedObject "(string \<times> jsonValue) list"

text \<open>
  The loop of \<^verbatim>\<open>fetchFromSupabaseJSON\<close> over the missing names: the field looked up
  is the upper-cased name; it is taken when it is a string that is not empty.
\<close>

fun fetchLoop ::
  "(string \<times> jsonValue) list \<Rightarrow> string list \<Rightarrow> PlaceholdersMap \<Rightarrow> PlaceholdersMap" where
  "fetchLoop jsonData [] placeholders = placeholders"
| "fetchLoop jsonData (missingName # ns) placeholders =
     (case map_of jsonData (toUpperCase missingName) of
        Some (JString s) \<Rightarrow>
          if s \<noteq> [] then fetchLoop jsonData ns (placeholders(missingName \<mapsto> s))
          else fetchLoop jsonData ns placeholders
      | _ \<Rightarrow> fetchLoop jsonData ns placeholders)"

definition fetchFromSupabaseJSON :: "string list \<Rightarrow> statusResult \<Rightarrow> PlaceholdersMap" where
  "fetchFromSupabaseJSON placeholderNames result =
     (if placeholderNames = [] then Map.empty
      else (case result of
              ParsedObject jsonData \<Rightarrow> fetchLoop jsonData placeholderNames Map.empty
            | _ \<Rightarrow> Map.empty))"

text \<open>
  The earlier \<^verbatim>\<open>maybeGetSupabasePlaceholders\<close> of the single-file version of the
  tool: a fixed table from field names to placeholder names.
\<close>

definition SUPABASE_JSON_TO_PLACEHOLDER :: "(string \<times> string) list" where
  "SUPABASE_JSON_TO_PLACEHOLDER =
     [(''API_URL'', ''supabase-api-url''),
      (''ANON_KEY'', ''supabase-anon-key''),
      (''DB_URL'', ''supabase-db-url''),
      (''GRAPHQL_URL'', ''supabase-graphql-url''),
      (''SERVICE_ROLE_KEY'', ''supabase-service-role-key'')]"

fun supabaseLoop ::
  "string list \<Rightarrow> (string \<times> jsonValue) list \<Rightarrow> PlaceholdersMap \<Rightarrow> PlaceholdersMap" where
  "supabaseLoop missingPlaceholders [] placeholders = placeholders"
| "supabaseLoop missingPlaceholders ((k, JOther) # es) placeholders =
     supabaseLoop missingPlaceholders es placeholders"
| "supabaseLoop missingPlaceholders ((k, JString val) # es) placeholders =
     (case map_of SUPABASE_JSON_TO_PLACEHOLDER (toUpperCase k) of
        None \<Rightarrow> supabaseLoop missingPlaceholders es placeholders
      | Some placeholderName \<Rightarrow>
          (let p1 = (if placeholderName \<in> set missingPlaceholders
                     then placeholders(placeholderName \<mapsto> val) else placeholders);
               p2 = (if toUpperCase k = ''API_URL'' \<and> ''supabase-url'' \<in> set missingPlaceholders
                     then p1(''supabase-url'' \<mapsto> val) else p1)
           in supabaseLoop missingPlaceholders es p2))"

definition maybeGetSupabasePlaceholders :: "string list \<Rightarrow> statusResult \<Rightarrow> PlaceholdersMap" where
  "maybeGetSupabasePlaceholders missingPlaceholders result =
     (case result of
        ParsedObject jsonData \<Rightarrow> supabaseLoop missingPlaceholders jsonData Map.empty
      | _ \<Rightarrow> Map.empty)"

text \<open>
  Step 6 of \<^verbatim>\<open>generateEnvAction\<close>: the address found by \<^verbatim>\<open>getLocalIp\<close>, when there
  is one, becomes a user placeholder, unless the user gave \<^verbatim>\<open>host-ip\<close>.
\<close>

definition withHostIp :: "string list \<Rightarrow> PlaceholdersMap \<Rightarrow> string option \<Rightarrow> PlaceholdersMap" where
  "withHostIp usedPlaceholders userPlaceholders localIp =
     (if ''host-ip'' \<in> set usedPlaceholders \<and> userPlaceholders ''host-ip'' = None then
        (case localIp of
           Some ip \<Rightarrow> if ip \<noteq> [] then userPlaceholders(''host-ip'' \<mapsto> ip) else userPlaceholders
         | None \<Rightarrow> userPlaceholders)
      else userPlaceholders)"

text \<open>Step 7: the used names that the user placeholders lack.\<close>

definition missingPlaceholders :: "string list \<Rightarrow> PlaceholdersMap \<Rightarrow> string list" where
  "missingPlaceholders usedPlaceholders userPlaceholders =
     filter (\<lambda>p. userPlaceholders p = None) usedPlaceholders"

text \<open>Step 8: the spread \<^verbatim>\<open>{...supabaseMap, ...userPlaceholders}\<close>.\<close>

definition finalPlaceholders :: "PlaceholdersMap \<Rightarrow> PlaceholdersMap \<Rightarrow> PlaceholdersMap" where
  "finalPlaceholders supabaseMap userPlaceholders = supabaseMap ++ userPlaceholders"

section \<open>One template file of a run (\<^verbatim>\<open>generateEnvAction.ts\<close>, steps 9 and 10)\<close>

text \<open>
  The options that decide what is written. An option that is not given is
  \<^verbatim>\<open>undefined\<close>, which the code only tests for truth: it is \<open>False\<close> here.
\<close>

record FillOptions =
  merge :: bool
  override :: bool
  dryRun :: bool

definition canOverride :: "FillOptions \<Rightarrow> bool" where
  "canOverride options = (\<not> merge options \<and> override options)"

text \<open>
  The body of the loop over the template files. The file system is the last argument:
  the content of the output file before the step, if the file exists. The result is the
  content after the step.
\<close>

definition processFile ::
  "FillOptions \<Rightarrow> PlaceholdersMap \<Rightarrow> (string \<times> string) list \<Rightarrow> EnvLine list
     \<Rightarrow> string option \<Rightarrow> string option" where
  "processFile options placeholders extraVars envExampleLines outputFile =
     (let replaced = generateEnvLocalLines envExampleLines placeholders
      in case outputFile of
           Some content \<Rightarrow>
             if \<not> merge options then Some content
             else (let existing = parseEnvFile content;
                       merged = mergeEnvLocal existing replaced (canOverride options)
                   in if dryRun options then Some content
                      else Some (writeEnvFile merged extraVars (canOverride options)))
         | None \<Rightarrow>
             if dryRun options then None
             else (let newFileMerged = mergeEnvLocal [] replaced False
                   in Some (writeEnvFile newFileMerged extraVars (canOverride options))))"

section \<open>User pairs (\<^verbatim>\<open>parseKeyValuePairs.ts\<close>)\<close>





section \<open>Notions of the specification\<close>

text \<open>The values that the key/value lines of a line list give to a key, in order.\<close>

fun valuesOf :: "string \<Rightarrow> EnvLine list \<Rightarrow> string list" where
  "valuesOf k [] = []"
| "valuesOf k (KeyValue k' v r # ls) = (if k' = k then v # valuesOf k ls else valuesOf k ls)"
| "valuesOf k (_ # ls) = valuesOf k ls"

text \<open>
  The value that a line list gives to a key when the list is read into a lookup, as
  both \<^verbatim>\<open>mergeEnvLocal\<close> and \<^verbatim>\<open>writeEnvFile\<close> do: the last line of the key counts.
\<close>

definition lookupValue :: "EnvLine list \<Rightarrow> string \<Rightarrow> string option" where
  "lookupValue ls k = map_option line_value (mapGet (collectKeyValues [] ls) k)"






text \<open>The condition that one line of the existing side keeps its place in a merge.\<close>

definition sameSlot :: "EnvLine \<Rightarrow> EnvLine \<Rightarrow> bool" where
  "sameSlot a b = (if isKeyValue a then isKeyValue b else b = a)"

text \<open>Every entry of the lookup built from the new lines is a key/value line stored under its own key.\<close>

definition keyed :: "(string, EnvLine) jsmap \<Rightarrow> bool" where
  "keyed m = (\<forall>e \<in> set m. hasKey (fst e) (snd e))"

section \<open>Properties of the merge engine\<close>

lemma keyed_mapSet: "keyed m \<Longrightarrow> hasKey k ln \<Longrightarrow> keyed (mapSet m k ln)"
  by (induction m) (fastforce simp: keyed_def split: if_splits)+

lemma keyed_mapDelete: "keyed m \<Longrightarrow> keyed (mapDelete m k)"
  by (auto simp: keyed_def mapDelete_def)

lemma keyed_collect: "keyed m \<Longrightarrow> keyed (collectKeyValues m ls)"
  by (induction m ls rule: collectKeyValues.induct) (simp_all add: keyed_mapSet)

lemma keyed_Nil: "keyed []"
  by (simp add: keyed_def)

lemma mapGet_keyed: "keyed m \<Longrightarrow> mapGet m k = Some nl \<Longrightarrow> hasKey k nl"
  by (auto simp: keyed_def mapGet_def dest!: map_of_SomeD)

lemma keysOf_append: "keysOf (xs @ ys) = keysOf xs @ keysOf ys"
  by (induction xs rule: keysOf.induct) auto

lemma keysOf_hasKey: "hasKey k ln \<Longrightarrow> keysOf [ln] = [k]"
  by (cases ln) auto

text \<open>The walk emits, for each existing line, one line with the same key.\<close>

lemma mergeLoop_keys:
  "keyed m \<Longrightarrow> keysOf (fst (mergeLoop ov ls acc m)) = keysOf acc @ keysOf ls"
proof (induction ov ls acc m rule: mergeLoop.induct)
  case (2 ov k v r ls merged newMap)
  show ?case
  proof (cases ov)
    case False
    with 2 show ?thesis by (simp add: keysOf_append keyed_mapDelete)
  next
    case True
    show ?thesis
    proof (cases "mapGet newMap k")
      case None
      with True 2 show ?thesis by (simp add: keysOf_append)
    next
      case (Some nl)
      with 2 have "hasKey k nl" by (auto dest: mapGet_keyed)
      with Some True 2 show ?thesis
        by (simp add: keysOf_append keyed_mapDelete keysOf_hasKey)
    qed
  qed
qed (simp_all add: keysOf_append)

lemma valuesOf_filter: "valuesOf k ls = map line_value (filter (hasKey k) ls)"
  by (induction k ls rule: valuesOf.induct) auto

lemma keysOf_filter: "k \<in> set (keysOf ls) \<longleftrightarrow> filter (hasKey k) ls \<noteq> []"
  by (induction ls rule: keysOf.induct) auto

lemma map_fst_mapSet:
  "map fst (mapSet m k v) = (if k \<in> fst ` set m then map fst m else map fst m @ [k])"
  by (induction m) (force split: if_splits)+

lemma distinct_mapSet: "distinct (map fst m) \<Longrightarrow> distinct (map fst (mapSet m k v))"
  by (simp add: map_fst_mapSet)

lemma distinct_mapDelete: "distinct (map fst m) \<Longrightarrow> distinct (map fst (mapDelete m k))"
  by (simp add: mapDelete_def distinct_map_filter)

lemma distinct_collect: "distinct (map fst m) \<Longrightarrow> distinct (map fst (collectKeyValues m ls))"
  by (induction m ls rule: collectKeyValues.induct) (simp_all add: distinct_mapSet)

lemma mapGet_Nil: "mapGet [] k = None"
  by (simp add: mapGet_def)

lemma mapGet_mapDelete: "mapGet (mapDelete m k') k = (if k = k' then None else mapGet m k)"
  by (induction m) (auto simp: mapGet_def mapDelete_def)

lemma mapGet_mapSet: "mapGet (mapSet m k v) k' = (if k' = k then Some v else mapGet m k')"
  by (induction m) (auto simp: mapGet_def)

lemma mapGet_collect:
  "mapGet (collectKeyValues m ls) k =
     (if filter (hasKey k) ls = [] then mapGet m k else Some (last (filter (hasKey k) ls)))"
  by (induction m ls rule: collectKeyValues.induct) (auto simp: mapGet_mapSet)

lemma mergeLoop_snd_get:
  "mapGet (snd (mergeLoop ov ls acc m)) k = (if k \<in> set (keysOf ls) then None else mapGet m k)"
  by (induction ov ls acc m rule: mergeLoop.induct)
     (auto simp: mapGet_mapDelete split: option.splits)

lemma mergeLoop_snd_keyed: "keyed m \<Longrightarrow> keyed (snd (mergeLoop ov ls acc m))"
  by (induction ov ls acc m rule: mergeLoop.induct)
     (auto simp: keyed_mapDelete split: option.splits)

lemma mergeLoop_snd_distinct:
  "distinct (map fst m) \<Longrightarrow> distinct (map fst (snd (mergeLoop ov ls acc m)))"
  by (induction ov ls acc m rule: mergeLoop.induct)
     (auto simp: distinct_mapDelete split: option.splits)

lemma filter_mapValues:
  "keyed m \<Longrightarrow> distinct (map fst m) \<Longrightarrow>
   filter (hasKey k) (mapValues m) = (case mapGet m k of None \<Rightarrow> [] | Some nl \<Rightarrow> [nl])"
proof (induction m)
  case Nil
  then show ?case by (simp add: mapValues_def mapGet_def)
next
  case (Cons e m)
  obtain k' ln where e: "e = (k', ln)" by (cases e)
  from Cons.prems have hk: "hasKey k' ln" and km: "keyed m" and nk: "k' \<notin> fst ` set m"
    and dm: "distinct (map fst m)"
    by (auto simp: keyed_def e)
  have ih: "filter (hasKey k) (mapValues m) = (case mapGet m k of None \<Rightarrow> [] | Some nl \<Rightarrow> [nl])"
    using Cons.IH km dm by simp
  show ?case
  proof (cases "k' = k")
    case True
    with nk have "mapGet m k = None" by (simp add: mapGet_def map_of_eq_None_iff)
    with ih True hk show ?thesis by (simp add: e mapValues_def mapGet_def)
  next
    case False
    with hk have "\<not> hasKey k ln" by (cases ln) auto
    with ih False show ?thesis by (simp add: e mapValues_def mapGet_def)
  qed
qed

lemma hasKey_unique: "hasKey k ln \<Longrightarrow> hasKey k' ln \<Longrightarrow> k = k'"
  by (cases ln) auto

lemma mergeLoop_fst_filter:
  "keyed m \<Longrightarrow>
   filter (hasKey k) (fst (mergeLoop ov ls acc m)) =
     filter (hasKey k) acc @
       (if ov then (case mapGet m k of
                      None \<Rightarrow> filter (hasKey k) ls
                    | Some nl \<Rightarrow> (case filter (hasKey k) ls of [] \<Rightarrow> [] | x # xs \<Rightarrow> nl # xs))
        else filter (hasKey k) ls)"
proof (induction ov ls acc m rule: mergeLoop.induct)
  case (1 ov merged newMap)
  then show ?case by (simp split: option.splits)
next
  case (2 ov k' v r ls merged newMap)
  show ?case
  proof (cases ov)
    case False
    with 2 show ?thesis by (simp add: keyed_mapDelete)
  next
    case True
    show ?thesis
    proof (cases "mapGet newMap k'")
      case None
      with True 2 show ?thesis by (auto split: option.splits list.splits)
    next
      case (Some nl')
      with 2 have hk: "hasKey k' nl'" by (auto dest: mapGet_keyed)
      show ?thesis
      proof (cases "k' = k")
        case eq: True
        with Some True 2 hk show ?thesis
          by (simp add: keyed_mapDelete mapGet_mapDelete split: option.splits)
      next
        case neq: False
        with hk have "\<not> hasKey k nl'" by (auto dest: hasKey_unique)
        with neq neq[symmetric] Some True 2 show ?thesis
          by (simp add: keyed_mapDelete mapGet_mapDelete split: option.splits)
      qed
    qed
  qed
next
  case (3 ov t ls merged newMap)
  then show ?case by (simp split: option.splits)
next
  case (4 ov ls merged newMap)
  then show ?case by (simp split: option.splits)
qed

lemma isKeyValue_hasKey: "hasKey k ln \<Longrightarrow> isKeyValue ln"
  by (cases ln) auto

lemma sameSlot_simps:
  "sameSlot (KeyValue k v r) b = isKeyValue b"
  "sameSlot (Comment t) b = (b = Comment t)"
  "sameSlot Blank b = (b = Blank)"
  by (simp_all add: sameSlot_def)

lemma mergeEnvLocal_alt:
  "mergeEnvLocal E N ov =
     fst (mergeLoop ov E [] (collectKeyValues [] N)) @
     mapValues (snd (mergeLoop ov E [] (collectKeyValues [] N)))"
  by (simp add: mergeEnvLocal_def case_prod_beta)

lemma mergeLoop_slots:
  "keyed m \<Longrightarrow> \<exists>out. fst (mergeLoop ov ls acc m) = acc @ out \<and> list_all2 sameSlot ls out"
proof (induction ov ls acc m rule: mergeLoop.induct)
  case (1 ov merged newMap)
  then show ?case by simp
next
  case (2 ov k v r ls merged newMap)
  show ?case
  proof (cases ov)
    case False
    with "2.IH"(1) "2.prems" obtain out where
      "fst (mergeLoop ov ls (merged @ [KeyValue k v r]) (mapDelete newMap k)) =
         (merged @ [KeyValue k v r]) @ out"
      "list_all2 sameSlot ls out"
      by (auto simp: keyed_mapDelete)
    with False show ?thesis
      by (intro exI[of _ "KeyValue k v r # out"]) (simp add: sameSlot_simps)
  next
    case True
    show ?thesis
    proof (cases "mapGet newMap k")
      case None
      with "2.IH" True "2.prems" obtain out where
        "fst (mergeLoop ov ls (merged @ [KeyValue k v r]) newMap) =
           (merged @ [KeyValue k v r]) @ out"
        "list_all2 sameSlot ls out"
        by auto
      with True None show ?thesis
        by (intro exI[of _ "KeyValue k v r # out"]) (simp add: sameSlot_simps)
    next
      case (Some nl)
      with "2.prems" have "isKeyValue nl" by (auto dest: mapGet_keyed isKeyValue_hasKey)
      moreover from "2.IH" True Some "2.prems" obtain out where
        "fst (mergeLoop ov ls (merged @ [nl]) (mapDelete newMap k)) = (merged @ [nl]) @ out"
        "list_all2 sameSlot ls out"
        by (auto simp: keyed_mapDelete)
      ultimately show ?thesis using True Some
        by (intro exI[of _ "nl # out"]) (simp add: sameSlot_simps)
    qed
  qed
next
  case (3 ov t ls merged newMap)
  then obtain out where
    "fst (mergeLoop ov ls (merged @ [Comment t]) newMap) = (merged @ [Comment t]) @ out"
    "list_all2 sameSlot ls out"
    by blast
  then show ?case
    by (intro exI[of _ "Comment t # out"]) (simp add: sameSlot_simps)
next
  case (4 ov ls merged newMap)
  then obtain out where
    "fst (mergeLoop ov ls (merged @ [Blank]) newMap) = (merged @ [Blank]) @ out"
    "list_all2 sameSlot ls out"
    by blast
  then show ?case
    by (intro exI[of _ "Blank # out"]) (simp add: sameSlot_simps)
qed

lemma keyed_values: "keyed m \<Longrightarrow> list_all isKeyValue (mapValues m)"
  by (auto simp: keyed_def mapValues_def list_all_iff dest: isKeyValue_hasKey)

lemma sameSlot_filter:
  "list_all2 sameSlot xs ys \<Longrightarrow>
   filter (\<lambda>l. \<not> isKeyValue l) ys = filter (\<lambda>l. \<not> isKeyValue l) xs"
  by (induction xs ys rule: list_all2_induct) (auto simp: sameSlot_def split: if_splits)

text \<open>The merged lines: one line per existing line, then key/value lines only.\<close>

lemma merge_shape:
  "\<exists>out rest. mergeEnvLocal E N ov = out @ rest \<and> list_all2 sameSlot E out
      \<and> list_all isKeyValue rest"
proof -
  have k: "keyed (collectKeyValues [] N)"
    by (rule keyed_collect) (rule keyed_Nil)
  obtain out where out: "fst (mergeLoop ov E [] (collectKeyValues [] N)) = out"
    and slots: "list_all2 sameSlot E out"
    using mergeLoop_slots[OF k, of ov E "[]"] by auto
  have "list_all isKeyValue (mapValues (snd (mergeLoop ov E [] (collectKeyValues [] N))))"
    using k by (intro keyed_values mergeLoop_snd_keyed)
  moreover have "mergeEnvLocal E N ov =
      out @ mapValues (snd (mergeLoop ov E [] (collectKeyValues [] N)))"
    using out by (simp add: mergeEnvLocal_alt)
  ultimately show ?thesis
    using slots by blast
qed

lemma keyed_distinct_collect:
  "keyed (collectKeyValues [] N)" "distinct (map fst (collectKeyValues [] N))"
  by (simp_all add: keyed_collect keyed_Nil distinct_collect)

lemma merge_lines_of_key:
  assumes "k \<in> set (keysOf E)"
  shows "filter (hasKey k) (mergeEnvLocal E N ov) =
     (if ov \<and> k \<in> set (keysOf N)
      then last (filter (hasKey k) N) # tl (filter (hasKey k) E)
      else filter (hasKey k) E)"
proof -
  let ?m = "collectKeyValues [] N"
  let ?r = "mergeLoop ov E [] ?m"
  have ne: "filter (hasKey k) E \<noteq> []"
    using assms by (simp add: keysOf_filter)
  have "mapGet (snd ?r) k = None"
    using assms by (simp add: mergeLoop_snd_get)
  moreover have "keyed (snd ?r)" "distinct (map fst (snd ?r))"
    by (simp_all add: mergeLoop_snd_keyed mergeLoop_snd_distinct keyed_distinct_collect)
  ultimately have left: "filter (hasKey k) (mapValues (snd ?r)) = []"
    by (simp add: filter_mapValues)
  have get: "mapGet ?m k =
      (if k \<in> set (keysOf N) then Some (last (filter (hasKey k) N)) else None)"
    by (simp add: mapGet_collect keysOf_filter mapGet_Nil)
  have "filter (hasKey k) (fst ?r) =
      (if ov \<and> k \<in> set (keysOf N)
       then last (filter (hasKey k) N) # tl (filter (hasKey k) E)
       else filter (hasKey k) E)"
    using ne by (cases "filter (hasKey k) E")
      (simp_all add: mergeLoop_fst_filter keyed_distinct_collect get)
  with left show ?thesis
    by (simp add: mergeEnvLocal_alt)
qed

text \<open>
  C1. Merging into an empty existing side does not return the new lines: the comment
  and blank lines of the new lines are dropped and a key that occurs twice is kept once,
  with its last line. Here the merge is evaluated on a comment, an assignment and a
  blank line, and the step that creates an output file is evaluated on the template
  text \<^verbatim>\<open># note\<close>, \<^verbatim>\<open>PORT=3000\<close>, empty line.
\<close>

theorem merge_into_empty_drops_comments:
  "mergeEnvLocal [] [Comment ''# note'', KeyValue ''PORT'' ''3000'' ''PORT=3000'', Blank] False
     = [KeyValue ''PORT'' ''3000'' ''PORT=3000'']
   \<and> mergeEnvLocal [] [Comment ''# note'', KeyValue ''PORT'' ''3000'' ''PORT=3000'', Blank] True
     = [KeyValue ''PORT'' ''3000'' ''PORT=3000'']
   \<and> mergeEnvLocal []
       [KeyValue ''A'' ''1'' ''A=1'', KeyValue ''B'' ''2'' ''B=2'', KeyValue ''A'' ''3'' ''A=3''] False
     = [KeyValue ''A'' ''3'' ''A=3'', KeyValue ''B'' ''2'' ''B=2'']
   \<and> processFile \<lparr>merge = True, override = False, dryRun = False\<rparr> Map.empty []
       (parseEnvFile (''# note'' @ [LF] @ ''PORT=3000'' @ [LF])) None
     = Some ''PORT=3000''"
  by code_simp

text \<open>
  C2. Merge never drops a key of the existing side: every key of a key/value line of
  the existing lines is the key of a key/value line of the merged lines, for either
  ov value.
\<close>

theorem merge_keeps_existing_keys:
  "k \<in> set (keysOf E) \<Longrightarrow> k \<in> set (keysOf (mergeEnvLocal E N ov))"
proof -
  assume k: "k \<in> set (keysOf E)"
  have "keyed (collectKeyValues [] N)"
    by (rule keyed_collect) (rule keyed_Nil)
  then have "keysOf (fst (mergeLoop ov E [] (collectKeyValues [] N))) = keysOf E"
    by (simp add: mergeLoop_keys)
  with k show ?thesis
    by (auto simp: mergeEnvLocal_def keysOf_append split: prod.splits)
qed

theorem merge_keeps_existing_keys_witness:
  "''PORT'' \<in> set (keysOf [Comment ''# db'', KeyValue ''PORT'' ''9999'' ''PORT=9999''])
   \<and> ''PORT'' \<in> set (keysOf (mergeEnvLocal
         [Comment ''# db'', KeyValue ''PORT'' ''9999'' ''PORT=9999'']
         [KeyValue ''HOST'' ''h'' ''HOST=h''] True))"
  using merge_keeps_existing_keys
    [of "''PORT''" "[Comment ''# db'', KeyValue ''PORT'' ''9999'' ''PORT=9999'']"
        "[KeyValue ''HOST'' ''h'' ''HOST=h'']" True]
  by simp

text \<open>
  C3, as the claim states it, fails when the key occurs twice in the existing lines:
  with override, the first existing line of the key is replaced by the new line and the
  second is kept, so the merged lines give the key the existing value \<open>2\<close> where the
  new lines give it \<open>3\<close>, and the file that is written holds \<^verbatim>\<open>A=2\<close>.
\<close>

theorem merge_override_duplicate_key_counterexample:
  "''A'' \<in> set (keysOf [KeyValue ''A'' ''1'' ''A=1'', KeyValue ''A'' ''2'' ''A=2''])
   \<and> ''A'' \<in> set (keysOf [KeyValue ''A'' ''3'' ''A=3''])
   \<and> lookupValue [KeyValue ''A'' ''3'' ''A=3''] ''A'' = Some ''3''
   \<and> lookupValue
        (mergeEnvLocal [KeyValue ''A'' ''1'' ''A=1'', KeyValue ''A'' ''2'' ''A=2'']
           [KeyValue ''A'' ''3'' ''A=3''] True) ''A'' = Some ''2''
   \<and> valuesOf ''A''
        (mergeEnvLocal [KeyValue ''A'' ''1'' ''A=1'', KeyValue ''A'' ''2'' ''A=2'']
           [KeyValue ''A'' ''3'' ''A=3''] True) = [''3'', ''2'']
   \<and> writeEnvFile
        (mergeEnvLocal [KeyValue ''A'' ''1'' ''A=1'', KeyValue ''A'' ''2'' ''A=2'']
           [KeyValue ''A'' ''3'' ''A=3''] True) [] True = ''A=2''"
  by code_simp

text \<open>
  C3, amended. For a key of the existing lines, the values that the merged lines give
  to the key are: without override, or when the new lines lack the key, the values of
  the existing lines, unchanged and in order; with override and the key in the new
  lines, the value of the last new line of the key in place of the first existing
  value, followed by the other existing values. So a key that occurs once in the
  existing lines keeps its existing value without override and has the new value, and
  no other, with override.
\<close>

theorem merge_values:
  "k \<in> set (keysOf E) \<Longrightarrow>
   valuesOf k (mergeEnvLocal E N ov) =
     (if ov \<and> k \<in> set (keysOf N) then last (valuesOf k N) # tl (valuesOf k E)
      else valuesOf k E)"
  by (simp add: valuesOf_filter merge_lines_of_key map_tl last_map keysOf_filter)

theorem merge_values_witness:
  "''PORT'' \<in> set (keysOf [Comment ''# db'', KeyValue ''PORT'' ''9999'' ''PORT=9999'', Blank])
   \<and> valuesOf ''PORT'' (mergeEnvLocal
        [Comment ''# db'', KeyValue ''PORT'' ''9999'' ''PORT=9999'', Blank]
        [Comment ''# new'', KeyValue ''PORT'' ''3000'' ''PORT=3000'', KeyValue ''HOST'' ''h'' ''HOST=h'']
        True) = [''3000'']
   \<and> valuesOf ''PORT'' (mergeEnvLocal
        [Comment ''# db'', KeyValue ''PORT'' ''9999'' ''PORT=9999'', Blank]
        [Comment ''# new'', KeyValue ''PORT'' ''3000'' ''PORT=3000'', KeyValue ''HOST'' ''h'' ''HOST=h'']
        False) = [''9999'']
   \<and> valuesOf ''PORT'' (mergeEnvLocal
        [Comment ''# db'', KeyValue ''PORT'' ''9999'' ''PORT=9999'', Blank]
        [KeyValue ''HOST'' ''h'' ''HOST=h'']
        True) = [''9999'']"
  using
    merge_values
      [of "''PORT''" "[Comment ''# db'', KeyValue ''PORT'' ''9999'' ''PORT=9999'', Blank]"
          "[Comment ''# new'', KeyValue ''PORT'' ''3000'' ''PORT=3000'', KeyValue ''HOST'' ''h'' ''HOST=h'']"
          True]
    merge_values
      [of "''PORT''" "[Comment ''# db'', KeyValue ''PORT'' ''9999'' ''PORT=9999'', Blank]"
          "[Comment ''# new'', KeyValue ''PORT'' ''3000'' ''PORT=3000'', KeyValue ''HOST'' ''h'' ''HOST=h'']"
          False]
    merge_values
      [of "''PORT''" "[Comment ''# db'', KeyValue ''PORT'' ''9999'' ''PORT=9999'', Blank]"
          "[KeyValue ''HOST'' ''h'' ''HOST=h'']" True]
  by simp

text \<open>
  C9, as the claim states it, fails in its second half: a comment line that only the
  new lines have is not in the merged lines at all, for either override value.
\<close>

theorem merge_new_comment_counterexample:
  "Comment ''# extra'' \<in> set [Comment ''# extra'', Blank, KeyValue ''B'' ''2'' ''B=2'']
   \<and> Comment ''# extra'' \<notin> set [KeyValue ''A'' ''1'' ''A=1'']
   \<and> mergeEnvLocal [KeyValue ''A'' ''1'' ''A=1'']
        [Comment ''# extra'', Blank, KeyValue ''B'' ''2'' ''B=2''] False
      = [KeyValue ''A'' ''1'' ''A=1'', KeyValue ''B'' ''2'' ''B=2'']
   \<and> mergeEnvLocal [KeyValue ''A'' ''1'' ''A=1'']
        [Comment ''# extra'', Blank, KeyValue ''B'' ''2'' ''B=2''] True
      = [KeyValue ''A'' ''1'' ''A=1'', KeyValue ''B'' ''2'' ''B=2'']"
  by code_simp

text \<open>
  C9, amended. Each comment or blank line of the existing lines stands in the merged
  lines at the index it has in the existing lines, and an existing key/value line has
  a key/value line at its index. When there are existing lines, what the merge appends
  after them are key/value lines only, so that the comment and blank lines of the
  merged lines are those of the existing lines: no comment or blank line of the new
  lines is added.
\<close>

theorem merge_comments_and_blanks:
  "length E \<le> length (mergeEnvLocal E N ov)
   \<and> (\<forall>i < length E. \<not> isKeyValue (E ! i) \<longrightarrow> mergeEnvLocal E N ov ! i = E ! i)
   \<and> (\<forall>i < length E. isKeyValue (E ! i) \<longrightarrow> isKeyValue (mergeEnvLocal E N ov ! i))
   \<and> (E \<noteq> [] \<longrightarrow>
        list_all isKeyValue (drop (length E) (mergeEnvLocal E N ov))
        \<and> filter (\<lambda>l. \<not> isKeyValue l) (mergeEnvLocal E N ov) = filter (\<lambda>l. \<not> isKeyValue l) E)"
proof -
  obtain out rest where m: "mergeEnvLocal E N ov = out @ rest"
    and slots: "list_all2 sameSlot E out" and rest: "list_all isKeyValue rest"
    using merge_shape by blast
  from slots have len: "length out = length E"
    by (simp add: list_all2_lengthD)
  have nth: "sameSlot (E ! i) (out ! i)" if "i < length E" for i
    using slots that by (simp add: list_all2_nthD)
  have "filter (\<lambda>l. \<not> isKeyValue l) rest = []"
    using rest by (simp add: list_all_iff filter_empty_conv)
  then have "filter (\<lambda>l. \<not> isKeyValue l) (mergeEnvLocal E N ov) = filter (\<lambda>l. \<not> isKeyValue l) E"
    using sameSlot_filter[OF slots] by (simp add: m)
  moreover have "length E \<le> length (mergeEnvLocal E N ov)"
    by (simp add: m len)
  moreover have "\<forall>i < length E. \<not> isKeyValue (E ! i) \<longrightarrow> mergeEnvLocal E N ov ! i = E ! i"
    using nth by (auto simp: m len nth_append sameSlot_def)
  moreover have "\<forall>i < length E. isKeyValue (E ! i) \<longrightarrow> isKeyValue (mergeEnvLocal E N ov ! i)"
    using nth by (auto simp: m len nth_append sameSlot_def)
  moreover have "list_all isKeyValue (drop (length E) (mergeEnvLocal E N ov))"
    using rest by (simp add: m len)
  ultimately show ?thesis by blast
qed

theorem merge_comments_and_blanks_witness:
  "[Comment ''# db'', KeyValue ''PORT'' ''9999'' ''PORT=9999'', Blank] \<noteq> []
   \<and> mergeEnvLocal
        [Comment ''# db'', KeyValue ''PORT'' ''9999'' ''PORT=9999'', Blank]
        [Comment ''# new'', KeyValue ''PORT'' ''3000'' ''PORT=3000'', KeyValue ''HOST'' ''h'' ''HOST=h'']
        True
      = [Comment ''# db'', KeyValue ''PORT'' ''3000'' ''PORT=3000'', Blank,
         KeyValue ''HOST'' ''h'' ''HOST=h'']
   \<and> list_all isKeyValue (drop 3 (mergeEnvLocal
        [Comment ''# db'', KeyValue ''PORT'' ''9999'' ''PORT=9999'', Blank]
        [Comment ''# new'', KeyValue ''PORT'' ''3000'' ''PORT=3000'', KeyValue ''HOST'' ''h'' ''HOST=h'']
        True))
   \<and> filter (\<lambda>l. \<not> isKeyValue l) (mergeEnvLocal
        [Comment ''# db'', KeyValue ''PORT'' ''9999'' ''PORT=9999'', Blank]
        [Comment ''# new'', KeyValue ''PORT'' ''3000'' ''PORT=3000'', KeyValue ''HOST'' ''h'' ''HOST=h'']
        True)
      = [Comment ''# db'', Blank]"
  using merge_comments_and_blanks
    [of "[Comment ''# db'', KeyValue ''PORT'' ''9999'' ''PORT=9999'', Blank]"
        "[Comment ''# new'', KeyValue ''PORT'' ''3000'' ''PORT=3000'', KeyValue ''HOST'' ''h'' ''HOST=h'']"
        True]
  by (simp add: mergeEnvLocal_def mapGet_def mapDelete_def mapValues_def)

section \<open>Properties of the parser and the writer\<close>















section \<open>Properties of the value sources and of the resolution\<close>

text \<open>
  C6. In the combined table a name of the user placeholders has the user's value,
  whatever the status source gives for it; a name that neither source has is absent;
  the address found on the network, stored among the user placeholders, outranks the
  status source in the same way; and a placeholder token of such a name resolves to
  the user's value.
\<close>

theorem user_values_outrank_status:
  "(userPlaceholders x = Some a \<longrightarrow> finalPlaceholders supabaseMap userPlaceholders x = Some a)
   \<and> (userPlaceholders x = None \<and> supabaseMap x = None \<longrightarrow>
        finalPlaceholders supabaseMap userPlaceholders x = None)
   \<and> (''host-ip'' \<in> set usedPlaceholders \<and> userPlaceholders ''host-ip'' = None \<and> ip \<noteq> [] \<longrightarrow>
        finalPlaceholders supabaseMap (withHostIp usedPlaceholders userPlaceholders (Some ip)) ''host-ip''
          = Some ip)
   \<and> (userPlaceholders (normalizePlaceholderName name) = Some a \<and>
        placeholderMatch (trim v) = Some name \<longrightarrow>
        resolveLine (finalPlaceholders supabaseMap userPlaceholders) (KeyValue k v r)
          = KeyValue k a (k @ ''='' @ a))"
  by (simp add: finalPlaceholders_def withHostIp_def map_add_def)

theorem user_values_outrank_status_witness:
  "finalPlaceholders [''x'' \<mapsto> ''B''] [''x'' \<mapsto> ''A''] ''x'' = Some ''A''
   \<and> finalPlaceholders [''x'' \<mapsto> ''B''] [''x'' \<mapsto> ''A''] ''y'' = None
   \<and> finalPlaceholders [''host-ip'' \<mapsto> ''B''] (withHostIp [''host-ip''] Map.empty (Some ''10.0.0.7'')) ''host-ip''
        = Some ''10.0.0.7''
   \<and> resolveLine (finalPlaceholders [''x'' \<mapsto> ''B''] [''x'' \<mapsto> ''A'']) (KeyValue ''K'' ''<X>'' ''K=<X>'')
        = KeyValue ''K'' ''A'' ''K=A''"
proof -
  have n: "normalizePlaceholderName ''X'' = ''x''" by code_simp
  have m: "placeholderMatch (trim ''<X>'') = Some ''X''" by code_simp
  from user_values_outrank_status
         [of "[''x'' \<mapsto> ''A'']" "''x''" "''A''" "[''x'' \<mapsto> ''B'']" "[''host-ip'']" "''10.0.0.7''"
             "''X''" "''<X>''" "''K''" "''K=<X>''"]
       user_values_outrank_status
         [of "[''x'' \<mapsto> ''A'']" "''y''" "''A''" "[''x'' \<mapsto> ''B'']" "[''host-ip'']" "''10.0.0.7''"
             "''X''" "''<X>''" "''K''" "''K=<X>''"]
       user_values_outrank_status
         [of Map.empty "''x''" "''A''" "[''host-ip'' \<mapsto> ''B'']" "[''host-ip'']" "''10.0.0.7''"
             "''X''" "''<X>''" "''K''" "''K=<X>''"]
  show ?thesis using n m by simp
qed



lemma fetchLoop_step:
  "fetchLoop jsonData (m # ns) placeholders =
     fetchLoop jsonData ns
       (case map_of jsonData (toUpperCase m) of
          Some (JString s) \<Rightarrow> if s \<noteq> [] then placeholders(m \<mapsto> s) else placeholders
        | _ \<Rightarrow> placeholders)"
  by (simp split: option.splits jsonValue.splits)

lemma fetchLoop_lookup:
  "fetchLoop jsonData ns placeholders n =
     (if n \<in> set ns then
        (case map_of jsonData (toUpperCase n) of
           Some (JString s) \<Rightarrow> if s \<noteq> [] then Some s else placeholders n
         | _ \<Rightarrow> placeholders n)
      else placeholders n)"
proof (induction ns arbitrary: placeholders)
  case Nil
  then show ?case by simp
next
  case (Cons m ns)
  show ?case
    unfolding fetchLoop_step Cons.IH
    by (auto split: option.splits jsonValue.splits)
qed

text \<open>
  What \<^verbatim>\<open>fetchFromSupabaseJSON\<close> returns when the status source yields an object: a
  name has a value exactly when it is one of the names the function was called with
  and the object has a field, named by the upper-cased name, that is a string and not
  empty.
\<close>

lemma status_fields_by_upper_case_name:
  "fetchFromSupabaseJSON placeholderNames (ParsedObject jsonData) n =
     (if n \<in> set placeholderNames then
        (case map_of jsonData (toUpperCase n) of
           Some (JString s) \<Rightarrow> if s \<noteq> [] then Some s else None
         | _ \<Rightarrow> None)
      else None)"
  by (simp add: fetchFromSupabaseJSON_def fetchLoop_lookup)

text \<open>
  C8. \<^verbatim>\<open>fetchFromSupabaseJSON\<close>, called with the missing names \<^verbatim>\<open>supabase-anon-key\<close>
  and \<^verbatim>\<open>supabase-api-url\<close> and given the fields \<^verbatim>\<open>ANON_KEY\<close> and \<^verbatim>\<open>API_URL\<close>,
  returns neither name, where the claim maps \<^verbatim>\<open>ANON_KEY\<close> to \<^verbatim>\<open>supabase-anon-key\<close> and
  \<^verbatim>\<open>API_URL\<close> to \<^verbatim>\<open>supabase-api-url\<close>: the fields it looks for are
  \<^verbatim>\<open>SUPABASE-ANON-KEY\<close> and \<^verbatim>\<open>SUPABASE-API-URL\<close>. The earlier
  \<^verbatim>\<open>maybeGetSupabasePlaceholders\<close> maps both fields.
\<close>

theorem status_fields_not_mapped:
  "fetchFromSupabaseJSON [''supabase-anon-key'', ''supabase-api-url'']
      (ParsedObject [(''ANON_KEY'', JString ''abc''), (''API_URL'', JString ''http://x'')])
      ''supabase-anon-key'' = None
   \<and> fetchFromSupabaseJSON [''supabase-anon-key'', ''supabase-api-url'']
      (ParsedObject [(''ANON_KEY'', JString ''abc''), (''API_URL'', JString ''http://x'')])
      ''supabase-api-url'' = None
   \<and> toUpperCase ''supabase-anon-key'' = ''SUPABASE-ANON-KEY''
   \<and> fetchFromSupabaseJSON [''supabase-anon-key'']
      (ParsedObject [(''SUPABASE-ANON-KEY'', JString ''abc'')]) ''supabase-anon-key'' = Some ''abc''
   \<and> maybeGetSupabasePlaceholders [''supabase-anon-key'', ''supabase-api-url'']
      (ParsedObject [(''ANON_KEY'', JString ''abc''), (''API_URL'', JString ''http://x'')])
      ''supabase-anon-key'' = Some ''abc''
   \<and> maybeGetSupabasePlaceholders [''supabase-anon-key'', ''supabase-api-url'']
      (ParsedObject [(''ANON_KEY'', JString ''abc''), (''API_URL'', JString ''http://x'')])
      ''supabase-api-url'' = Some ''http://x''"
  by code_simp

section \<open>Properties of a run\<close>

text \<open>
  C5. With the output file holding \<^verbatim>\<open>PORT=9999\<close> and the template \<^verbatim>\<open>PORT=3000\<close>, the
  file holds \<^verbatim>\<open>PORT=9999\<close> after the step for every setting of the merge and the
  override option: with merging on, \<^verbatim>\<open>canOverride\<close> is false; with merging off, the
  file is skipped. The merge itself, were it called with override, would give
  \<^verbatim>\<open>PORT=3000\<close>.
\<close>

theorem override_option_has_no_effect:
  "processFile \<lparr>merge = True, override = True, dryRun = False\<rparr> Map.empty []
      (parseEnvFile ''PORT=3000'') (Some ''PORT=9999'') = Some ''PORT=9999''
   \<and> processFile \<lparr>merge = False, override = True, dryRun = False\<rparr> Map.empty []
      (parseEnvFile ''PORT=3000'') (Some ''PORT=9999'') = Some ''PORT=9999''
   \<and> processFile \<lparr>merge = True, override = False, dryRun = False\<rparr> Map.empty []
      (parseEnvFile ''PORT=3000'') (Some ''PORT=9999'') = Some ''PORT=9999''
   \<and> canOverride \<lparr>merge = True, override = True, dryRun = False\<rparr> = False
   \<and> writeEnvFile (mergeEnvLocal (parseEnvFile ''PORT=9999'') (parseEnvFile ''PORT=3000'') True) [] True
      = ''PORT=3000''"
  by code_simp

section \<open>Properties of the user pairs\<close>








end
